theory Spec2Isabelle
  imports Main
begin

section \<open>Python string primitives used by odt2csv\<close>

text \<open>
  A Python \<open>str\<close> is modelled as a \<open>string\<close>, one \<open>char\<close> per code point
  (code points below 256). The functions of this section are the methods of \<open>str\<close> that
  \<open>src/odt2csv/__init__.py\<close> calls, with the behaviour of CPython.
\<close>

definition isspace :: "char \<Rightarrow> bool" where
  \<comment> \<open>\<open>str.isspace\<close> on one character: tab, LF, VT, FF, CR, FS, GS, RS, US, space, NEL, NBSP.\<close>
  "isspace c \<longleftrightarrow> c \<in> set [CHR 0x09, CHR 0x0A, CHR 0x0B, CHR 0x0C, CHR 0x0D,
                          CHR 0x1C, CHR 0x1D, CHR 0x1E, CHR 0x1F, CHR 0x20, CHR 0x85, CHR 0xA0]"

definition lstrip :: "string \<Rightarrow> string" where
  "lstrip s = dropWhile isspace s"

definition rstrip :: "string \<Rightarrow> string" where
  "rstrip s = rev (dropWhile isspace (rev s))"

definition strip :: "string \<Rightarrow> string" where
  \<comment> \<open>\<open>s.strip()\<close>: whitespace removed at both ends.\<close>
  "strip s = rstrip (lstrip s)"

definition startswith :: "string \<Rightarrow> string \<Rightarrow> bool" where
  \<comment> \<open>\<open>s.startswith(p)\<close>; also the slice tests \<open>s[:n] == p\<close> with \<open>n = len(p)\<close>.\<close>
  "startswith s p \<longleftrightarrow> take (length p) s = p"

fun contains :: "string \<Rightarrow> string \<Rightarrow> bool" where
  \<comment> \<open>\<open>s.__contains__(sub)\<close>: \<open>sub\<close> occurs in \<open>s\<close> as a substring.\<close>
  "contains [] sub = (sub = [])"
| "contains (c # cs) sub = (startswith (c # cs) sub \<or> contains cs sub)"

fun split :: "string \<Rightarrow> char \<Rightarrow> string list" where
  \<comment> \<open>\<open>s.split(sep)\<close> for a separator of one character: never empty, keeps empty fields.\<close>
  "split [] sep = [[]]"
| "split (c # cs) sep =
     (if c = sep then [] # split cs sep
      else (case split cs sep of [] \<Rightarrow> [[c]] | x # xs \<Rightarrow> (c # x) # xs))"

function replace :: "string \<Rightarrow> string \<Rightarrow> string \<Rightarrow> string" where
  \<comment> \<open>\<open>s.replace(old, new)\<close>: the occurrences of \<open>old\<close> found scanning from the left,
      without overlap; an empty \<open>old\<close> matches before every character and at the end.\<close>
  "replace s old new =
     (if old = [] then new @ concat (map (\<lambda>c. c # new) s)
      else if s = [] then []
      else if startswith s old then new @ replace (drop (length old) s) old new
      else hd s # replace (tl s) old new)"
  by pat_completeness auto
termination
  by (relation "measure (\<lambda>(s, old, new). length s)") auto

declare replace.simps [simp del]

lemma replace_double_space_simps:
  "replace [] ''  '' '' '' = []"
  "replace [c] ''  '' '' '' = [c]"
  "replace (a # b # cs) ''  '' '' '' =
     (if a = CHR '' '' \<and> b = CHR '' '' then CHR '' '' # replace cs ''  '' '' ''
      else a # replace (b # cs) ''  '' '' '')"
  by (subst replace.simps, simp add: startswith_def)+

lemma contains_double_space_simps:
  "contains [] ''  '' = False"
  "contains [c] ''  '' = False"
  "contains (a # b # cs) ''  '' = (a = CHR '' '' \<and> b = CHR '' '' \<or> contains (b # cs) ''  '')"
  by (simp_all add: startswith_def)

lemma length_replace_double_space_le:
  "length (replace s ''  '' '' '') \<le> length s"
  by (induction s rule: induct_list012) (simp_all add: replace_double_space_simps)

lemma length_replace_double_space_less:
  "contains s ''  '' \<Longrightarrow> length (replace s ''  '' '' '') < length s"
proof (induction s rule: induct_list012)
  case 1
  then show ?case by (simp add: contains_double_space_simps)
next
  case (2 c)
  then show ?case by (simp only: contains_double_space_simps)
next
  case (3 a b cs)
  show ?case
  proof (cases "a = CHR '' '' \<and> b = CHR '' ''")
    case True
    have "length (replace cs ''  '' '' '') \<le> length cs"
      by (rule length_replace_double_space_le)
    with True show ?thesis
      by (simp add: replace_double_space_simps)
  next
    case False
    with "3.prems" have "contains (b # cs) ''  ''"
      by (simp only: contains_double_space_simps) blast
    then have "length (replace (b # cs) ''  '' '' '') < length (b # cs)"
      by (rule "3.IH"(2))
    with False show ?thesis
      by (auto simp: replace_double_space_simps)
  qed
qed

section \<open>The helpers of \<open>src/odt2csv/__init__.py\<close>\<close>

function despacifier_loop :: "string \<Rightarrow> string" where
  \<comment> \<open>The \<open>while\<close> loop of \<open>despacifier\<close>.\<close>
  "despacifier_loop str =
     (if contains str ''  '' then despacifier_loop (replace str ''  '' '' '') else str)"
  by pat_completeness auto
termination
  by (relation "measure length") (auto simp: length_replace_double_space_less)

declare despacifier_loop.simps [simp del]

definition despacifier :: "string \<Rightarrow> string" where
  "despacifier str = strip (despacifier_loop str)"

primrec remove_empty :: "string list \<Rightarrow> string list" where
  "remove_empty [] = []"
| "remove_empty (a # input_list) =
     (let l = strip a
      in if length l = 0 then remove_empty input_list else l # remove_empty input_list)"

definition space2comma :: "string \<Rightarrow> string" where
  "space2comma str = replace (despacifier str) '' '' '',''"

definition quoted :: "string \<Rightarrow> string" where
  \<comment> \<open>One step \<open>sanitized_ch += "\"" + s + "\","\<close>: the text appended for the token \<open>s\<close>.\<close>
  "quoted s = [CHR 0x22] @ s @ [CHR 0x22, CHR '','']"

definition tokenize_piece :: "string \<Rightarrow> string" where
  \<comment> \<open>The body of the loop \<open>for q in p\<close> of \<open>tokenize_header\<close>: the text appended to
      \<open>sanitized_ch\<close> for the piece \<open>q\<close>.\<close>
  "tokenize_piece q0 =
     (let q = strip q0 in
      if contains q ''}'' \<and> \<not> startswith q ''}'' then
        (let r = remove_empty (split q CHR ''}'') in
         (case r of [] \<Rightarrow> [CHR 0x22, CHR 0x22, CHR '',''] | r0 # _ \<Rightarrow> quoted r0)
         @ (if length r > 1 then concat (map quoted (split (r ! 1) CHR '' '')) else []))
      else
        (let r = remove_empty (split q CHR '' '') in
         concat (map (\<lambda>s. quoted (if startswith s ''}'' then drop 1 s else s)) r)))"

definition tokenize_header :: "string \<Rightarrow> string" where
  "tokenize_header str =
     (let l = despacifier str;
          p = remove_empty (split l CHR ''{'');
          sanitized_ch = concat (map tokenize_piece p)
      in butlast sanitized_ch)"

partial_function (option) despacifier_while :: "string \<Rightarrow> string option" where
  \<comment> \<open>The same \<open>while\<close> loop with nothing assumed about its termination:
      \<open>None\<close> stands for a loop that never leaves.\<close>
  "despacifier_while str =
     (if contains str ''  '' then despacifier_while (replace str ''  '' '' '') else Some str)"

section \<open>Files, policies and errors\<close>

text \<open>
  The value passed as \<open>parser_behavior\<close> is an \<open>int\<close> or a \<open>str\<close>; \<open>convert\<close> only
  looks at \<open>str(parser_behavior)\<close>.
\<close>

datatype pyval = PyInt int | PyStr string

definition digit :: "nat \<Rightarrow> char" where
  "digit d = ''0123456789'' ! d"

function str_nat :: "nat \<Rightarrow> string" where
  "str_nat n = (if n < 10 then [digit n] else str_nat (n div 10) @ [digit (n mod 10)])"
  by pat_completeness auto
termination
  by (relation "measure id") auto

declare str_nat.simps [simp del]

fun str_py :: "pyval \<Rightarrow> string" where
  \<comment> \<open>\<open>str(v)\<close>\<close>
  "str_py (PyStr s) = s"
| "str_py (PyInt i) = (if i < 0 then CHR ''-'' # str_nat (nat (- i)) else str_nat (nat i))"

text \<open>The three exceptions of \<open>src/odt2csv/exceptions.py\<close>, each with its \<open>arg\<close>.\<close>

datatype error =
    ODTFileNotFoundError string
  | MultipleTableStartsError nat
  | InvalidParserBehaviorError pyval

text \<open>
  The file system maps a path to the text of the file there (text files only; a path is
  its own canonical name). \<open>handles\<close> lists the file objects that are open, by path and
  mode, and \<open>lines_read\<close> counts the lines that file iteration has handed out.
\<close>

datatype mode = Read | Write | Append

record world =
  files :: "string \<rightharpoonup> string"
  handles :: "(string \<times> mode) list"
  lines_read :: nat

definition exists :: "world \<Rightarrow> string \<Rightarrow> bool" where
  \<comment> \<open>\<open>os.path.exists\<close>\<close>
  "exists w path \<longleftrightarrow> files w path \<noteq> None"

definition open_file :: "world \<Rightarrow> string \<Rightarrow> mode \<Rightarrow> world" where
  \<comment> \<open>\<open>open(path, mode)\<close> on a path that can be opened: \<open>'w'\<close> creates or truncates,
      \<open>'a'\<close> creates a missing file, \<open>'r'\<close> leaves the files alone.\<close>
  "open_file w path m =
     w\<lparr>files :=
         (case m of
            Read \<Rightarrow> files w
          | Write \<Rightarrow> (files w)(path \<mapsto> [])
          | Append \<Rightarrow> (case files w path of None \<Rightarrow> (files w)(path \<mapsto> []) | Some _ \<Rightarrow> files w)),
       handles := handles w @ [(path, m)]\<rparr>"

definition close_file :: "world \<Rightarrow> string \<Rightarrow> mode \<Rightarrow> world" where
  "close_file w path m = w\<lparr>handles := remove1 (path, m) (handles w)\<rparr>"

definition append_text :: "world \<Rightarrow> string \<Rightarrow> string \<Rightarrow> world" where
  \<comment> \<open>What the \<open>write\<close> calls on a handle opened with \<open>'a'\<close> leave in the file.\<close>
  "append_text w path s =
     w\<lparr>files := (files w)(path \<mapsto> (case files w path of None \<Rightarrow> s | Some old \<Rightarrow> old @ s))\<rparr>"

fun readlines :: "string \<Rightarrow> string list" where
  \<comment> \<open>The lines that \<open>for l in read_in\<close> hands out, for a file opened in text mode:
      a line ends at LF, CR or CR LF, each read as LF; a last line need not end.\<close>
  "readlines [] = []"
| "readlines (c # cs) =
     (if c = CHR 0x0A then [CHR 0x0A] # readlines cs
      else if c = CHR 0x0D then
        (case cs of
           [] \<Rightarrow> [[CHR 0x0A]]
         | d # ds \<Rightarrow> if d = CHR 0x0A then [CHR 0x0A] # readlines ds else [CHR 0x0A] # readlines cs)
      else (case readlines cs of [] \<Rightarrow> [[c]] | l # ls \<Rightarrow> (c # l) # ls))"

definition read_all :: "world \<Rightarrow> string \<Rightarrow> string list \<times> world" where
  \<comment> \<open>A \<open>for\<close> loop over a reader that has not been read yet: \<open>convert\<close> never leaves such a
      loop early, so every line of the file is handed out.\<close>
  "read_all w path =
     (let ls = (case files w path of None \<Rightarrow> [] | Some text \<Rightarrow> readlines text)
      in (ls, w\<lparr>lines_read := lines_read w + length ls\<rparr>))"

section \<open>\<open>convert\<close>\<close>

definition splitext_root :: "string \<Rightarrow> string" where
  \<comment> \<open>\<open>os.path.splitext(p)[0]\<close> of \<open>posixpath\<close>: the extension starts at the last dot of
      the last path component, unless only dots stand before it there.\<close>
  "splitext_root p =
     (let name_rev = takeWhile (\<lambda>c. c \<noteq> CHR ''/'') (rev p);
          ext_rev = takeWhile (\<lambda>c. c \<noteq> CHR ''.'') name_rev;
          stem_rev = drop (length ext_rev + 1) name_rev
      in if length ext_rev < length name_rev \<and> filter (\<lambda>c. c \<noteq> CHR ''.'') stem_rev \<noteq> []
         then take (length p - (length ext_rev + 1)) p
         else p)"

definition output_path :: "string \<Rightarrow> string option \<Rightarrow> string option \<Rightarrow> string" where
  \<comment> \<open>The path \<open>fo\<close> of the output file.\<close>
  "output_path odt_input csv_output output_suffix =
     (case csv_output of
        None \<Rightarrow>
          (case output_suffix of
             None \<Rightarrow> splitext_root odt_input @ ''.csv''
           | Some suffix \<Rightarrow> splitext_root odt_input @ suffix @ ''.csv'')
      | Some fo \<Rightarrow> if drop (length fo - 4) fo \<noteq> ''.csv'' then fo @ ''.csv'' else fo)"

definition is_table_start :: "string \<Rightarrow> bool" where
  \<comment> \<open>The test of both passes on a line as read: \<open>l.strip().startswith('# Table Start')\<close>.\<close>
  "is_table_start l \<longleftrightarrow> startswith (strip l) ''# Table Start''"

fun count_table_starts :: "string list \<Rightarrow> nat \<Rightarrow> nat" where
  \<comment> \<open>The first loop over the input: \<open>table_start_count\<close> after the lines, from its value before.\<close>
  "count_table_starts [] table_start_count = table_start_count"
| "count_table_starts (l # ls) table_start_count =
     (if is_table_start l then count_table_starts ls (table_start_count + 1)
      else count_table_starts ls table_start_count)"

definition parsing_mode :: "pyval \<Rightarrow> nat \<Rightarrow> error + bool option" where
  \<comment> \<open>The value of \<open>raw_parsing_mode\<close> after the chain of tests on \<open>str(parser_behavior)\<close>,
      or the exception raised there.\<close>
  "parsing_mode parser_behavior table_start_count =
     (if str_py parser_behavior = ''1'' \<or> str_py parser_behavior = ''new'' then Inr (Some False)
      else if str_py parser_behavior = ''2'' \<or> str_py parser_behavior = ''fail'' then
        (if table_start_count > 1 then Inl (MultipleTableStartsError table_start_count)
         else Inr (Some False))
      else if str_py parser_behavior = ''3'' \<or> str_py parser_behavior = ''raw'' then Inr (Some True)
      else Inl (InvalidParserBehaviorError parser_behavior))"

definition convert_line :: "bool \<Rightarrow> string \<Rightarrow> string list" where
  \<comment> \<open>The body of the second loop below its \<open>continue\<close> for skipped lines, on the stripped
      line \<open>l\<close>: the strings passed to \<open>write_out.write\<close>, none or one.\<close>
  "convert_line keep_unit l =
     (if take 10 l = ''# Columns:'' then [tokenize_header (drop 10 l) @ [CHR 0x0A]]
      else if take 8 l = ''# Units:'' then
        (if keep_unit then [tokenize_header (drop 8 l) @ [CHR 0x0A]] else [])
      else if take 1 l = ''#'' then []
      else [space2comma l @ [CHR 0x0A]])"

fun main_pass :: "bool \<Rightarrow> nat \<Rightarrow> bool \<Rightarrow> nat \<Rightarrow> string list \<Rightarrow> string list" where
  \<comment> \<open>The second loop over the input, from \<open>encountered_table_starts\<close> before the lines:
      the strings written to the output, in order.\<close>
  "main_pass raw_parsing_mode table_start_count keep_unit encountered_table_starts [] = []"
| "main_pass raw_parsing_mode table_start_count keep_unit encountered_table_starts (l0 # ls) =
     (let l = strip l0;
          encountered = (if startswith l ''# Table Start'' then encountered_table_starts + 1
                         else encountered_table_starts)
      in if \<not> raw_parsing_mode \<and> encountered < table_start_count
         then main_pass raw_parsing_mode table_start_count keep_unit encountered ls
         else convert_line keep_unit l
              @ main_pass raw_parsing_mode table_start_count keep_unit encountered ls)"

definition convert ::
  "world \<Rightarrow> string \<Rightarrow> string option \<Rightarrow> string option \<Rightarrow> bool \<Rightarrow> pyval \<Rightarrow> (error + unit) \<times> world" where
  "convert w odt_input csv_output output_suffix keep_unit parser_behavior =
     (if \<not> exists w odt_input then (Inl (ODTFileNotFoundError odt_input), w)
      else
        let fo = output_path odt_input csv_output output_suffix;
            w1 = open_file w odt_input Read;
            (lines1, w2) = read_all w1 odt_input;
            table_start_count = count_table_starts lines1 0;
            w3 = close_file w2 odt_input Read;
            w4 = open_file w3 odt_input Read
        in (case parsing_mode parser_behavior table_start_count of
              Inl e \<Rightarrow> (Inl e, w4)
            | Inr None \<Rightarrow> (Inr (), close_file w4 odt_input Read)
            | Inr (Some raw_parsing_mode) \<Rightarrow>
                let w5 = close_file (open_file w4 fo Write) fo Write;
                    w6 = open_file w5 fo Append;
                    (lines2, w7) = read_all w6 odt_input;
                    w8 = append_text w7 fo
                           (concat (main_pass raw_parsing_mode table_start_count keep_unit 0 lines2));
                    w9 = close_file w8 fo Append
                in (Inr (), close_file w9 odt_input Read)))"

section \<open>Reference notions of the specification\<close>

fun collapse_spaces :: "string \<Rightarrow> string" where
  \<comment> \<open>Every run of consecutive space characters collapsed to one space.\<close>
  "collapse_spaces [] = []"
| "collapse_spaces [c] = [c]"
| "collapse_spaces (a # b # cs) =
     (if a = CHR '' '' \<and> b = CHR '' '' then collapse_spaces (b # cs)
      else a # collapse_spaces (b # cs))"

definition space_to_comma :: "char \<Rightarrow> char" where
  "space_to_comma c = (if c = CHR '' '' then CHR '','' else c)"

fun final_segment :: "string list \<Rightarrow> string list" where
  \<comment> \<open>The last table segment of a file: its lines from the last table-start marker on, all
      of them when it has no marker. A line is before the last marker when a marker follows it.\<close>
  "final_segment [] = []"
| "final_segment (l # ls) = (if list_ex is_table_start ls then final_segment ls else l # ls)"

section \<open>The space-collapsing loop\<close>

lemma collapse_spaces_Cons:
  "collapse_spaces (x # ys) =
     (if x = CHR '' '' \<and> ys \<noteq> [] \<and> hd ys = CHR '' '' then collapse_spaces ys
      else x # collapse_spaces ys)"
  by (cases ys) simp_all

lemma replace_double_space_Nil_iff:
  "replace s ''  '' '' '' = [] \<longleftrightarrow> s = []"
  by (induction s rule: induct_list012) (simp_all add: replace_double_space_simps)

lemma hd_replace_double_space:
  "s \<noteq> [] \<Longrightarrow> hd (replace s ''  '' '' '') = hd s"
  by (induction s rule: induct_list012) (simp_all add: replace_double_space_simps)

lemma collapse_spaces_replace:
  "collapse_spaces (replace s ''  '' '' '') = collapse_spaces s"
proof (induction s rule: induct_list012)
  case (3 a b cs)
  show ?case
  proof (cases "a = CHR '' '' \<and> b = CHR '' ''")
    case True
    have "collapse_spaces (CHR '' '' # replace cs ''  '' '' '') = collapse_spaces (CHR '' '' # cs)"
      by (simp only: collapse_spaces_Cons [of _ "replace cs ''  '' '' ''"] collapse_spaces_Cons [of _ cs] "3.IH"(1))
         (auto simp: replace_double_space_Nil_iff hd_replace_double_space)
    with True show ?thesis
      by (simp add: replace_double_space_simps)
  next
    case False
    have "collapse_spaces (a # replace (b # cs) ''  '' '' '') = collapse_spaces (a # b # cs)"
      by (simp only: collapse_spaces_Cons [of a] "3.IH"(2))
         (auto simp: replace_double_space_Nil_iff hd_replace_double_space)
    with False show ?thesis
      by (auto simp: replace_double_space_simps)
  qed
qed (simp_all add: replace_double_space_simps)

lemma collapse_spaces_id:
  "\<not> contains s ''  '' \<Longrightarrow> collapse_spaces s = s"
  by (induction s rule: induct_list012) (simp_all only: contains_double_space_simps collapse_spaces.simps, auto)

lemma despacifier_loop_collapse:
  "despacifier_loop s = collapse_spaces s"
proof (induction s rule: despacifier_loop.induct)
  case (1 str)
  show ?case
  proof (cases "contains str ''  ''")
    case True
    then have "despacifier_loop str = despacifier_loop (replace str ''  '' '' '')"
      by (subst despacifier_loop.simps) simp
    also have "\<dots> = collapse_spaces (replace str ''  '' '' '')"
      using True by (rule "1.IH")
    finally show ?thesis by (simp add: collapse_spaces_replace)
  next
    case False
    then show ?thesis
      by (subst despacifier_loop.simps) (simp add: collapse_spaces_id)
  qed
qed

lemma despacifier_while_total:
  "despacifier_while s = Some (despacifier_loop s)"
proof (induction s rule: despacifier_loop.induct)
  case (1 str)
  show ?case
  proof (cases "contains str ''  ''")
    case True
    then show ?thesis
      using "1.IH" by (subst despacifier_while.simps, subst despacifier_loop.simps) simp
  next
    case False
    then show ?thesis
      by (subst despacifier_while.simps, subst despacifier_loop.simps) simp
  qed
qed

lemma replace_space_comma:
  "replace s '' '' '','' = map space_to_comma s"
  by (induction s) (subst replace.simps, simp add: startswith_def space_to_comma_def)+


lemma isspace_space [simp]: "isspace (CHR '' '')"
  by (simp add: isspace_def)

lemma collapse_spaces_snoc:
  "collapse_spaces (xs @ [y]) =
     (if xs \<noteq> [] \<and> last xs = CHR '' '' \<and> y = CHR '' '' then collapse_spaces xs
      else collapse_spaces xs @ [y])"
  by (induction xs rule: induct_list012) auto

lemma collapse_spaces_rev:
  "collapse_spaces (rev s) = rev (collapse_spaces s)"
proof (induction s)
  case Nil
  show ?case by simp
next
  case (Cons a s)
  show ?case
    by (simp add: collapse_spaces_snoc collapse_spaces_Cons [of a s] Cons.IH last_rev)
qed

lemma lstrip_collapse_spaces:
  "lstrip (collapse_spaces s) = collapse_spaces (lstrip s)"
proof (induction s)
  case Nil
  show ?case by (simp add: lstrip_def)
next
  case (Cons x ys)
  show ?case
  proof (cases "isspace x")
    case True
    with Cons.IH show ?thesis
      by (simp add: collapse_spaces_Cons [of x ys] lstrip_def)
  next
    case False
    then have "x \<noteq> CHR '' ''" by auto
    with False show ?thesis
      by (simp add: collapse_spaces_Cons [of x ys] lstrip_def)
  qed
qed

lemma rstrip_collapse_spaces:
  "rstrip (collapse_spaces s) = collapse_spaces (rstrip s)"
proof -
  have "rstrip (collapse_spaces s) = rev (lstrip (rev (collapse_spaces s)))"
    by (simp add: rstrip_def lstrip_def)
  also have "\<dots> = rev (lstrip (collapse_spaces (rev s)))"
    by (simp only: collapse_spaces_rev)
  also have "\<dots> = rev (collapse_spaces (lstrip (rev s)))"
    by (simp only: lstrip_collapse_spaces)
  also have "\<dots> = collapse_spaces (rev (lstrip (rev s)))"
    by (simp only: collapse_spaces_rev)
  finally show ?thesis by (simp add: rstrip_def lstrip_def)
qed

lemma strip_collapse_spaces:
  "strip (collapse_spaces s) = collapse_spaces (strip s)"
  by (simp add: strip_def lstrip_collapse_spaces rstrip_collapse_spaces)

lemma rstrip_idem: "rstrip (rstrip s) = rstrip s"
  by (simp add: rstrip_def)

lemma rstrip_prefix: "\<exists>suf. t = rstrip t @ suf"
proof -
  have "rev t = takeWhile isspace (rev t) @ dropWhile isspace (rev t)"
    by simp
  then have "rev (rev t) = rev (takeWhile isspace (rev t) @ dropWhile isspace (rev t))"
    by (rule arg_cong)
  then have "t = rev (dropWhile isspace (rev t)) @ rev (takeWhile isspace (rev t))"
    by (simp only: rev_rev_ident rev_append)
  then show ?thesis
    unfolding rstrip_def by blast
qed

lemma lstrip_rstrip_lstrip: "lstrip (rstrip (lstrip s)) = rstrip (lstrip s)"
proof (cases "rstrip (lstrip s)")
  case Nil
  then show ?thesis by (simp add: lstrip_def)
next
  case (Cons c cs)
  obtain suf where "lstrip s = rstrip (lstrip s) @ suf"
    using rstrip_prefix by blast
  with Cons have eq: "lstrip s = c # cs @ suf" by simp
  then have "dropWhile isspace s \<noteq> []" by (simp add: lstrip_def)
  then have "\<not> isspace (hd (dropWhile isspace s))" by (rule hd_dropWhile)
  with eq have "\<not> isspace c" by (simp add: lstrip_def)
  with Cons show ?thesis by (simp add: lstrip_def)
qed

lemma strip_idem: "strip (strip s) = strip s"
  by (simp add: strip_def lstrip_rstrip_lstrip rstrip_idem)

lemma strip_collapse_strip:
  "strip (collapse_spaces (strip s)) = strip (collapse_spaces s)"
  by (simp add: strip_collapse_spaces [symmetric] strip_idem)


section \<open>The tokenizer on the headers of the specification\<close>

text \<open>
  Claim C5, as the code has it. The header \<open>x{A B} y\<close> is tokenized to the three quoted
  tokens \<open>x\<close>, \<open>A B\<close> and \<open>y\<close>, joined by commas: the whole text between the braces,
  its inner space included, is one token. (The character \<open>CHR 0x22\<close> is the double quote.)
\<close>

theorem tokenize_header_brace_group_with_space:
  "tokenize_header ''x{A B} y'' =
     [CHR 0x22] @ ''x'' @ [CHR 0x22] @ '','' @
     [CHR 0x22] @ ''A B'' @ [CHR 0x22] @ '','' @
     [CHR 0x22] @ ''y'' @ [CHR 0x22]"
  by code_simp

text \<open>
  Claim C5 as the specification states it expects the tokens \<open>x\<close>, \<open>A\<close> and \<open>y\<close>; that
  is not what \<open>tokenize_header\<close> returns.
\<close>

theorem tokenize_header_brace_group_counterexample:
  "tokenize_header ''x{A B} y'' \<noteq>
     [CHR 0x22] @ ''x'' @ [CHR 0x22] @ '','' @
     [CHR 0x22] @ ''A'' @ [CHR 0x22] @ '','' @
     [CHR 0x22] @ ''y'' @ [CHR 0x22]"
  by code_simp

text \<open>
  Claim C1 says that every sub-piece after the first one of a piece split on \<open>}\<close> is split
  on spaces into further tokens, as the comment above that loop of \<open>tokenize_header\<close> does
  (\<open>r[1], r[2], etc.\<close>). The loop reads \<open>r[1]\<close> only. On \<open>a{b}c}d\<close> the piece \<open>b}c}d\<close> has
  the sub-pieces \<open>b\<close>, \<open>c\<close> and \<open>d\<close>, and the result holds the tokens \<open>a\<close>, \<open>b\<close> and \<open>c\<close>:
  \<open>d\<close> is lost.
\<close>

theorem tokenize_header_drops_third_subpiece:
  "tokenize_header ''a{b}c}d'' =
     [CHR 0x22] @ ''a'' @ [CHR 0x22] @ '','' @
     [CHR 0x22] @ ''b'' @ [CHR 0x22] @ '','' @
     [CHR 0x22] @ ''c'' @ [CHR 0x22]"
  by code_simp

section \<open>Termination of \<open>despacifier\<close>\<close>

text \<open>
  Claim C10. The \<open>while\<close> loop of \<open>despacifier\<close>, modelled with no assumption that it ends
  (\<open>despacifier_while\<close>), returns on every string, and returns the value that
  \<open>despacifier\<close>, \<open>space2comma\<close> and \<open>tokenize_header\<close> continue with
  (\<open>despacifier_loop\<close>); the reason is that a replacement of the double spaces of a string
  that has one makes it strictly shorter. The other loops of the three functions run over
  finite lists.
\<close>

theorem despacifier_loop_terminates:
  "despacifier_while s = Some (despacifier_loop s) \<and>
   (contains s ''  '' \<longrightarrow> length (replace s ''  '' '' '') < length s)"
  by (simp add: despacifier_while_total length_replace_double_space_less)

theorem despacifier_loop_terminates_witness:
  "despacifier_while ''a    b  c'' = Some ''a b c'' \<and>
   contains ''a    b  c'' ''  '' \<and>
   length (replace ''a    b  c'' ''  '' '' '') < length ''a    b  c''"
proof -
  have c: "contains ''a    b  c'' ''  ''"
    by code_simp
  have l: "despacifier_loop ''a    b  c'' = ''a b c''"
    by code_simp
  from despacifier_loop_terminates [of "''a    b  c''"] c show ?thesis
    unfolding l by blast
qed

end
